theory Spec2Isabelle
  imports Complex_Main "HOL-Library.Product_Lexorder"
begin

section \<open>Time\<close>

text \<open>
  A \<^verbatim>\<open>datetime\<close> of the program is always a UTC instant; it is modelled as the
  number of microseconds since the epoch (the resolution of Python's datetime), a
  \<^verbatim>\<open>timedelta\<close> as a number of microseconds, and a \<^verbatim>\<open>date\<close> as the number of the
  day. Python's bounds on the year (1 to 9999) are not modelled.
\<close>

type_synonym datetime = int
type_synonym timedelta = int
type_synonym date = int

definition td_minutes :: "int \<Rightarrow> timedelta" where
  "td_minutes n = n * 60000000"

definition td_hours :: "int \<Rightarrow> timedelta" where
  "td_hours n = n * 3600000000"

definition td_days :: "int \<Rightarrow> timedelta" where
  "td_days n = n * 86400000000"

text \<open>\<^verbatim>\<open>t.date()\<close> of a UTC instant.\<close>

definition date_of :: "datetime \<Rightarrow> date" where
  "date_of t = t div 86400000000"

text \<open>\<^verbatim>\<open>dt.datetime(d.year, d.month, d.day, h, 0, tzinfo=utc)\<close>.\<close>

definition at_hour :: "date \<Rightarrow> int \<Rightarrow> datetime" where
  "at_hour d h = td_days d + td_hours h"

text \<open>
  \<^verbatim>\<open>delta / 2\<close>: true division of a timedelta, rounded to the nearest microsecond,
  halves to the even one.
\<close>

definition td_half :: "timedelta \<Rightarrow> timedelta" where
  "td_half d = (let q = d div 2 in
     if d mod 2 = 0 then q else if q mod 2 = 0 then q else q + 1)"

section \<open>Scoring helpers\<close>

text \<open>
  The forecast values are JSON numbers, Python floats. They are modelled as reals: the
  helpers only compare them with decimal thresholds.
\<close>

definition bass_sst_score :: "real \<Rightarrow> int" where
  "bass_sst_score c =
     (if c \<ge> 13.0 then 2 else if 12.0 \<le> c \<and> c < 13.0 then 1 else 0)"

definition cod_sst_score :: "real \<Rightarrow> int" where
  "cod_sst_score c =
     (if 8.0 \<le> c \<and> c \<le> 10.5 then 2 else if 11.0 \<le> c \<and> c \<le> 12.5 then 1 else 0)"

definition wind_swell_ok :: "real \<Rightarrow> real \<Rightarrow> int" where
  "wind_swell_ok wind_kt swell_m =
     (if swell_m \<le> 1.6 \<and> wind_kt \<le> 18 then 2
      else (if swell_m \<le> 2.2 \<and> wind_kt \<le> 24 then 1 else 0))"

definition pressure_trend_score :: "real \<Rightarrow> int" where
  "pressure_trend_score trend_hpa =
     (if trend_hpa < - 1.0 then 2 else (if \<bar>trend_hpa\<bar> \<le> 1.0 then 1 else 0))"

definition label_from_score :: "int \<Rightarrow> string" where
  "label_from_score x =
     (if x \<ge> 10 then ''GREEN''
      else if 7 \<le> x \<and> x \<le> 9 then ''AMBER''
      else if 4 \<le> x \<and> x \<le> 6 then ''AMBER-''
      else ''RED'')"

section \<open>Utilities\<close>

definition overlaps :: "datetime \<Rightarrow> datetime \<Rightarrow> datetime \<Rightarrow> datetime \<Rightarrow> bool" where
  "overlaps a_start a_end b_start b_end = (max a_start b_start < min a_end b_end)"

primrec pick_flood_windows :: "datetime list \<Rightarrow> (datetime \<times> datetime) list" where
  "pick_flood_windows [] = []"
| "pick_flood_windows (ht # high_tides) =
     (ht - td_hours 2, ht) # pick_flood_windows high_tides"

section \<open>Forecast series and scored windows\<close>

text \<open>
  \<^verbatim>\<open>met["hourly"]\<close>: the parallel series of the forecast. A key that is missing reads
  as the empty list (\<^verbatim>\<open>.get(key, [])\<close>); \<open>time\<close> holds the timestamps already
  parsed (the list \<^verbatim>\<open>hours\<close> of the program).
\<close>

record hourly =
  time :: "datetime list"
  sea_surface_temperature :: "real list"
  wind_speed_10m :: "real list"
  wind_direction_10m :: "real list"
  wave_height :: "real list"
  wave_period :: "real list"
  pressure_msl :: "real list"

text \<open>The dictionary appended to \<^verbatim>\<open>scored\<close>; the key \<^verbatim>\<open>end\<close> is the field \<open>end'\<close>.\<close>

record scored =
  start :: datetime
  end' :: datetime
  label :: string
  sst :: real
  wind_kt :: real
  wind_dir :: real
  wave_m :: real
  wavep :: real
  bass :: int
  cod :: int

datatype py_error = ValueError

text \<open>
  \<^verbatim>\<open>min(iterable, key=...)\<close>: the first element whose key is least; ValueError on an
  empty iterable.
\<close>

primrec min_from :: "('a \<Rightarrow> 'k::linorder) \<Rightarrow> 'a \<Rightarrow> 'a list \<Rightarrow> 'a" where
  "min_from key m [] = m"
| "min_from key m (x # xs) = min_from key (if key x < key m then x else m) xs"

definition py_min :: "'a list \<Rightarrow> ('a \<Rightarrow> 'k::linorder) \<Rightarrow> py_error + 'a" where
  "py_min xs key = (case xs of [] \<Rightarrow> Inl ValueError | x # ys \<Rightarrow> Inr (min_from key x ys))"

text \<open>\<^verbatim>\<open>xs[idx] if idx < len(xs) else d\<close>, for an index that is not negative.\<close>

definition at_or :: "'a list \<Rightarrow> nat \<Rightarrow> 'a \<Rightarrow> 'a" where
  "at_or xs idx d = (if idx < length xs then xs ! idx else d)"

text \<open>The pressure trend of \<^verbatim>\<open>main\<close>; an empty series raises inside the \<^verbatim>\<open>try\<close>.\<close>

definition pressure_trend :: "real list \<Rightarrow> real" where
  "pressure_trend psl =
     (if psl = [] then 0.0
      else let p_now = last psl; p_prev = psl ! (length psl div 2)
           in if p_now \<noteq> 0 \<and> p_prev \<noteq> 0 then p_now - p_prev else 0.0)"

text \<open>The body of the scoring loop of \<^verbatim>\<open>main\<close>, for one window.\<close>

definition score_window :: "hourly \<Rightarrow> real \<Rightarrow> datetime \<times> datetime \<times> string \<Rightarrow> py_error + scored" where
  "score_window h p_trend w =
     (case w of (w_start, w_end, w_label) \<Rightarrow>
        let hours = time h;
            mid = w_start + td_half (w_end - w_start)
        in case py_min [0 ..< length hours] (\<lambda>i. \<bar>hours ! i - mid\<bar>) of
             Inl e \<Rightarrow> Inl e
           | Inr idx \<Rightarrow>
               let val_sst = at_or (sea_surface_temperature h) idx 12.0;
                   val_wind = at_or (wind_speed_10m h) idx 6.0;
                   val_wind_dir = at_or (wind_direction_10m h) idx 225;
                   val_wave = at_or (wave_height h) idx 1.2;
                   val_wavep = at_or (wave_period h) idx 9.0;
                   kt = val_wind * 1.94384;
                   b = bass_sst_score val_sst + 2 + wind_swell_ok kt val_wave
                         + pressure_trend_score p_trend + 1;
                   c0 = cod_sst_score val_sst;
                   c1 = c0 + (if 0.8 \<le> val_wave \<and> val_wave \<le> 1.8 then 2
                              else (if val_wave > 1.8 then 1 else 0));
                   c = c1 + (2 + pressure_trend_score p_trend + 1)
               in Inr \<lparr>start = w_start, end' = w_end, label = w_label,
                        sst = val_sst, wind_kt = kt, wind_dir = val_wind_dir,
                        wave_m = val_wave, wavep = val_wavep, bass = b, cod = c\<rparr>)"

text \<open>The scoring loop: an exception in one window ends the run.\<close>

primrec score_windows ::
  "hourly \<Rightarrow> real \<Rightarrow> (datetime \<times> datetime \<times> string) list \<Rightarrow> py_error + scored list" where
  "score_windows h p_trend [] = Inr []"
| "score_windows h p_trend (w # ws) =
     (case score_window h p_trend w of
        Inl e \<Rightarrow> Inl e
      | Inr r \<Rightarrow>
          (case score_windows h p_trend ws of
             Inl e \<Rightarrow> Inl e
           | Inr rs \<Rightarrow> Inr (r # rs)))"

section \<open>Candidate windows\<close>

text \<open>
  The daylight service is a function from a day to its sunrise and sunset, \<open>None\<close>
  when the request fails (the program then returns \<^verbatim>\<open>(None, None)\<close>).
\<close>

definition civil_twilight_for_day ::
  "(date \<Rightarrow> (datetime \<times> datetime) option) \<Rightarrow> date
     \<Rightarrow> ((datetime \<times> datetime) \<times> (datetime \<times> datetime)) option" where
  "civil_twilight_for_day daylight date_utc =
     (case daylight date_utc of
        None \<Rightarrow> None
      | Some (sr, ss) \<Rightarrow>
          Some ((sr - td_minutes 30, sr + td_minutes 30),
                (ss - td_minutes 30, ss + td_minutes 30)))"

text \<open>The synthetic high tides used when the tide service gave none.\<close>

definition approx_hts :: "datetime \<Rightarrow> datetime list" where
  "approx_hts now =
     concat (map (\<lambda>d. [at_hour d 6, at_hour d 18]) [date_of now, date_of (now + td_days 1)])"

text \<open>The label of a flood window against the dawn and dusk of its day.\<close>

definition twilight_label ::
  "datetime \<Rightarrow> datetime \<Rightarrow> datetime \<times> datetime \<Rightarrow> datetime \<times> datetime \<Rightarrow> string option" where
  "twilight_label fw_start fw_end dawn dusk =
     (let label0 = (if overlaps fw_start fw_end (fst dawn) (snd dawn)
                    then Some ''dawn'' else None)
      in if overlaps fw_start fw_end (fst dusk) (snd dusk)
         then (if label0 = None then Some ''dusk'' else label0)
         else label0)"

text \<open>The inner loop of the window builder: the flood windows of one day.\<close>

primrec day_windows ::
  "datetime \<Rightarrow> date \<Rightarrow> datetime \<times> datetime \<Rightarrow> datetime \<times> datetime
     \<Rightarrow> (datetime \<times> datetime) list \<Rightarrow> (datetime \<times> datetime \<times> string) list" where
  "day_windows now day dawn dusk [] = []"
| "day_windows now day dawn dusk (fw # fws) =
     (let fw_start = fst fw; fw_end = snd fw in
      if date_of fw_start \<noteq> day then day_windows now day dawn dusk fws
      else case twilight_label fw_start fw_end dawn dusk of
             None \<Rightarrow> day_windows now day dawn dusk fws
           | Some lbl \<Rightarrow>
               if fw_end < now \<or> fw_start > now + td_hours 24
               then day_windows now day dawn dusk fws
               else (fw_start, fw_end, lbl) # day_windows now day dawn dusk fws)"

text \<open>
  The outer loop, over the days. The program iterates over a set of two dates, whose
  order Python does not fix; the order is a parameter here.
\<close>

primrec build_windows ::
  "datetime \<Rightarrow> (date \<Rightarrow> (datetime \<times> datetime) option) \<Rightarrow> (datetime \<times> datetime) list
     \<Rightarrow> date list \<Rightarrow> (datetime \<times> datetime \<times> string) list" where
  "build_windows now daylight flood_windows [] = []"
| "build_windows now daylight flood_windows (day # days) =
     (case civil_twilight_for_day daylight day of
        None \<Rightarrow> build_windows now daylight flood_windows days
      | Some (dawn, dusk) \<Rightarrow>
          day_windows now day dawn dusk flood_windows
            @ build_windows now daylight flood_windows days)"

text \<open>
  The overlap of two intervals as the specification words it (the later start, the
  earlier end). The program has no such function; it is here to compare with.
\<close>

definition spec_intersection ::
  "datetime \<times> datetime \<Rightarrow> datetime \<times> datetime \<Rightarrow> datetime \<times> datetime" where
  "spec_intersection a b = (max (fst a) (fst b), min (snd a) (snd b))"

section \<open>Selection\<close>

definition best_score :: "scored \<Rightarrow> int" where
  "best_score r = max (bass r) (cod r)"

text \<open>\<^verbatim>\<open>sorted\<close> is stable, as \<open>sort_key\<close> is; the key is a pair, ordered lexicographically.\<close>

definition pick_best :: "scored list \<Rightarrow> scored option" where
  "pick_best lst =
     (if lst = [] then None
      else Some (hd (sort_key (\<lambda>r. (- best_score r, start r)) lst)))"

section \<open>Notification state\<close>

text \<open>
  The state document maps a day (the JSON key is its ISO string) to a record of flags by
  key (\<^verbatim>\<open>"green"\<close>, \<^verbatim>\<open>"amber"\<close>). The file is absent, unreadable as JSON, or a document.
\<close>

type_synonym day_record = "string \<Rightarrow> bool option"
type_synonym state = "date \<Rightarrow> day_record option"

datatype state_file = Absent | Malformed | Document state

definition load_state :: "state_file \<Rightarrow> state" where
  "load_state f = (case f of Document st \<Rightarrow> st | Absent \<Rightarrow> Map.empty | Malformed \<Rightarrow> Map.empty)"

text \<open>\<^verbatim>\<open>state.get(today, {}).get(key, False)\<close>\<close>

definition sent_today :: "state \<Rightarrow> date \<Rightarrow> string \<Rightarrow> bool" where
  "sent_today st today key =
     (case st today of
        None \<Rightarrow> False
      | Some r \<Rightarrow> (case r key of None \<Rightarrow> False | Some v \<Rightarrow> v))"

text \<open>\<^verbatim>\<open>state.setdefault(today, {})[key] = True\<close>\<close>

definition mark_sent :: "state \<Rightarrow> date \<Rightarrow> string \<Rightarrow> state" where
  "mark_sent st today key =
     st(today \<mapsto> (case st today of None \<Rightarrow> Map.empty | Some r \<Rightarrow> r)(key \<mapsto> True))"

text \<open>What a state file holds for a day and a key, if anything.\<close>

definition entry :: "state_file \<Rightarrow> date \<Rightarrow> string \<Rightarrow> bool option" where
  "entry f d key = (case load_state f d of None \<Rightarrow> None | Some r \<Rightarrow> r key)"

section \<open>Dispatch\<close>

record config =
  PUSHOVER_TOKEN :: string
  PUSHOVER_USER :: string

text \<open>
  \<^verbatim>\<open>send_push\<close>: without credentials it returns False before any request; otherwise
  the result is that of the HTTP request, \<open>post rec band\<close> (False for a
  \<^verbatim>\<open>RequestException\<close>). The formatting of the message is not modelled.
\<close>

definition send_push :: "config \<Rightarrow> (scored \<Rightarrow> string \<Rightarrow> bool) \<Rightarrow> scored \<Rightarrow> string \<Rightarrow> bool" where
  "send_push cfg post r band =
     (if \<not> (PUSHOVER_TOKEN cfg \<noteq> [] \<and> PUSHOVER_USER cfg \<noteq> []) then False
      else post r band)"

text \<open>
  One of the two guarded blocks under the second lock: \<open>pick\<close> is the selected window,
  \<open>sent\<close> the flag read at the start of the run. The triple is the state dictionary,
  the flag \<^verbatim>\<open>updated\<close> and the calls of \<^verbatim>\<open>send_push\<close> made so far.
\<close>

definition notify_band ::
  "config \<Rightarrow> (scored \<Rightarrow> string \<Rightarrow> bool) \<Rightarrow> date \<Rightarrow> scored option \<Rightarrow> bool \<Rightarrow> string \<Rightarrow> string
     \<Rightarrow> state \<times> bool \<times> (scored \<times> string) list \<Rightarrow> state \<times> bool \<times> (scored \<times> string) list" where
  "notify_band cfg post today pick sent band key acc =
     (case acc of (st, updated, calls) \<Rightarrow>
        (case pick of
           None \<Rightarrow> (st, updated, calls)
         | Some r \<Rightarrow>
             if sent then (st, updated, calls)
             else if send_push cfg post r band
               then (mark_sent st today key, True, calls @ [(r, band)])
               else (st, updated, calls @ [(r, band)])))"

text \<open>
  What a run leaves behind: how it ended (the return code, or the exception that
  escaped), the state file, and the calls of \<^verbatim>\<open>send_push\<close> in order.
\<close>

record result =
  outcome :: "py_error + int"
  file_after :: state_file
  pushes :: "(scored \<times> string) list"

text \<open>The end of \<^verbatim>\<open>main\<close>, from \<^verbatim>\<open>updated = False\<close> on; a failed write is only logged.\<close>

definition dispatch ::
  "config \<Rightarrow> (scored \<Rightarrow> string \<Rightarrow> bool) \<Rightarrow> bool \<Rightarrow> state_file \<Rightarrow> state \<Rightarrow> date
     \<Rightarrow> bool \<Rightarrow> bool \<Rightarrow> scored option \<Rightarrow> scored option \<Rightarrow> result" where
  "dispatch cfg post write_ok file st today sent_green_today sent_amber_today
       pick_green pick_amber =
     (let acc1 = notify_band cfg post today pick_green sent_green_today ''GREEN'' ''green''
                   (st, False, []);
          acc2 = notify_band cfg post today pick_amber sent_amber_today ''AMBER'' ''amber'' acc1
      in case acc2 of (st2, updated, calls) \<Rightarrow>
           \<lparr>outcome = Inr 0,
            file_after = (if updated \<and> write_ok then Document st2 else file),
            pushes = calls\<rparr>)"

section \<open>The run\<close>

text \<open>
  Everything a run reads from outside: the clock (read once), the state file, the
  results of the three fetchers, the outcome of a notification request, and whether the
  state file can be written.
\<close>

record env =
  env_now :: datetime
  env_state_file :: state_file
  env_met :: hourly
  env_highs :: "datetime list"
  env_daylight :: "date \<Rightarrow> (datetime \<times> datetime) option"
  env_post :: "scored \<Rightarrow> string \<Rightarrow> bool"
  env_write_ok :: bool

text \<open>The candidate windows of the run: the fallback tides, the flood windows, the builder.\<close>

definition candidate_windows :: "env \<Rightarrow> (datetime \<times> datetime \<times> string) list" where
  "candidate_windows ev =
     (let highs = (if env_highs ev = [] then approx_hts (env_now ev) else env_highs ev);
          flood_windows = pick_flood_windows highs
      in build_windows (env_now ev) (env_daylight ev) flood_windows
           [date_of (env_now ev), date_of (env_now ev + td_days 1)])"

definition main :: "config \<Rightarrow> env \<Rightarrow> result" where
  "main cfg ev =
     (let st = load_state (env_state_file ev);
          today = date_of (env_now ev);
          sent_green_today = sent_today st today ''green'';
          sent_amber_today = sent_today st today ''amber'';
          p_trend = pressure_trend (pressure_msl (env_met ev));
          windows = candidate_windows ev
      in case score_windows (env_met ev) p_trend windows of
           Inl e \<Rightarrow> \<lparr>outcome = Inl e, file_after = env_state_file ev, pushes = []\<rparr>
         | Inr scored_list \<Rightarrow>
             if scored_list = []
             then \<lparr>outcome = Inr 0, file_after = env_state_file ev, pushes = []\<rparr>
             else
               let greens = filter (\<lambda>r. best_score r \<ge> 10) scored_list;
                   ambers = filter (\<lambda>r. 7 \<le> best_score r \<and> best_score r \<le> 9) scored_list;
                   pick_green = pick_best greens;
                   pick_amber = pick_best ambers
               in dispatch cfg (env_post ev) (env_write_ok ev) (env_state_file ev) st today
                    sent_green_today sent_amber_today pick_green pick_amber)"

section \<open>Example inputs\<close>

text \<open>
  Concrete inputs on which the theorems below are instantiated. Day 0 has sunrise at
  05:00 and sunset at 17:00; the polar day has sunrise at 11:00 and sunset at 12:00, so
  that one flood window can meet both twilight windows.
\<close>

definition ex_daylight :: "date \<Rightarrow> (datetime \<times> datetime) option" where
  "ex_daylight d = Some (at_hour d 5, at_hour d 17)"

definition ex_polar_daylight :: "date \<Rightarrow> (datetime \<times> datetime) option" where
  "ex_polar_daylight d = Some (at_hour d 11, at_hour d 12)"

definition ex_met :: hourly where
  "ex_met =
     \<lparr>time = [at_hour 0 5, at_hour 0 11, at_hour 0 17],
      sea_surface_temperature = [13.5, 13.5, 13.5],
      wind_speed_10m = [5, 5, 5],
      wind_direction_10m = [225, 225, 225],
      wave_height = [1.0, 1.0, 1.0],
      wave_period = [9, 9, 9],
      pressure_msl = [1013, 1012, 1010.5]\<rparr>"

text \<open>The forecast after a failed request: \<^verbatim>\<open>{"hourly": {}}\<close>, every series empty.\<close>

definition ex_no_met :: hourly where
  "ex_no_met =
     \<lparr>time = [], sea_surface_temperature = [], wind_speed_10m = [],
      wind_direction_10m = [], wave_height = [], wave_period = [], pressure_msl = []\<rparr>"

definition ex_post_ok :: "scored \<Rightarrow> string \<Rightarrow> bool" where
  "ex_post_ok r band = True"

definition ex_post_fail :: "scored \<Rightarrow> string \<Rightarrow> bool" where
  "ex_post_fail r band = False"

definition ex_cfg :: config where
  "ex_cfg = \<lparr>PUSHOVER_TOKEN = ''token'', PUSHOVER_USER = ''user''\<rparr>"

definition ex_cfg_no_credentials :: config where
  "ex_cfg_no_credentials = \<lparr>PUSHOVER_TOKEN = [], PUSHOVER_USER = ''user''\<rparr>"

text \<open>A run at 03:00 of day 0, with no tide data (so the synthetic tides are used).\<close>

definition ex_env :: "state_file \<Rightarrow> hourly \<Rightarrow> (scored \<Rightarrow> string \<Rightarrow> bool) \<Rightarrow> env" where
  "ex_env f hm post =
     \<lparr>env_now = at_hour 0 3, env_state_file = f, env_met = hm, env_highs = [],
      env_daylight = ex_daylight, env_post = post, env_write_ok = True\<rparr>"


definition ex_scored :: "datetime \<Rightarrow> int \<Rightarrow> int \<Rightarrow> scored" where
  "ex_scored s b c =
     \<lparr>start = s, end' = s + td_hours 2, label = ''dawn'', sst = 12, wind_kt = 10,
      wind_dir = 225, wave_m = 1, wavep = 9, bass = b, cod = c\<rparr>"

section \<open>Auxiliary facts\<close>

subsection \<open>Scoring\<close>

lemma bass_sst_score_range: "0 \<le> bass_sst_score c \<and> bass_sst_score c \<le> 2"
  by (simp add: bass_sst_score_def)

lemma cod_sst_score_range: "0 \<le> cod_sst_score c \<and> cod_sst_score c \<le> 2"
  by (simp add: cod_sst_score_def)

lemma wind_swell_ok_range: "0 \<le> wind_swell_ok k m \<and> wind_swell_ok k m \<le> 2"
  by (simp add: wind_swell_ok_def)

lemma pressure_trend_score_range:
  "0 \<le> pressure_trend_score t \<and> pressure_trend_score t \<le> 2"
  by (simp add: pressure_trend_score_def)

lemma score_window_fields:
  assumes "score_window h p_trend w = Inr r"
  shows "bass r = bass_sst_score (sst r) + 2 + wind_swell_ok (wind_kt r) (wave_m r)
                    + pressure_trend_score p_trend + 1"
    and "cod r = cod_sst_score (sst r)
                   + (if 0.8 \<le> wave_m r \<and> wave_m r \<le> 1.8 then 2
                      else (if wave_m r > 1.8 then 1 else 0))
                   + (2 + pressure_trend_score p_trend + 1)"
    and "start r = fst w" and "end' r = fst (snd w)" and "label r = snd (snd w)"
  using assms
  by (auto simp: score_window_def Let_def split: prod.splits sum.splits)

lemma score_window_range:
  assumes "score_window h p_trend w = Inr r"
  shows "3 \<le> bass r \<and> bass r \<le> 9 \<and> 3 \<le> cod r \<and> cod r \<le> 9"
proof -
  note f = score_window_fields [OF assms]
  have b: "3 \<le> bass r \<and> bass r \<le> 9"
    using bass_sst_score_range [of "sst r"] wind_swell_ok_range [of "wind_kt r" "wave_m r"]
      pressure_trend_score_range [of p_trend]
    unfolding f(1) by linarith
  have c: "3 \<le> cod r \<and> cod r \<le> 9"
    using cod_sst_score_range [of "sst r"] pressure_trend_score_range [of p_trend]
    unfolding f(2) by (simp split: if_splits)
  show ?thesis using b c by simp
qed

lemma score_windows_range:
  "score_windows h p_trend ws = Inr rs \<Longrightarrow> r \<in> set rs
     \<Longrightarrow> 3 \<le> bass r \<and> bass r \<le> 9 \<and> 3 \<le> cod r \<and> cod r \<le> 9"
proof (induction ws arbitrary: rs)
  case Nil
  then show ?case by simp
next
  case (Cons w ws)
  from Cons.prems(1) obtain r0 rs0 where
    r0: "score_window h p_trend w = Inr r0" and rs0: "score_windows h p_trend ws = Inr rs0"
    and rs: "rs = r0 # rs0"
    by (auto split: sum.splits)
  show ?case
  proof (cases "r = r0")
    case True
    then show ?thesis using score_window_range [OF r0] by simp
  next
    case False
    then have "r \<in> set rs0" using Cons.prems(2) rs by simp
    then show ?thesis using Cons.IH [OF rs0] by simp
  qed
qed

subsection \<open>Candidate windows\<close>

lemma pick_flood_windows_map:
  "pick_flood_windows hs = map (\<lambda>ht. (ht - td_hours 2, ht)) hs"
  by (induction hs) simp_all

lemma twilight_label_cases:
  "twilight_label s e dawn dusk =
     (if overlaps s e (fst dawn) (snd dawn) then Some ''dawn''
      else if overlaps s e (fst dusk) (snd dusk) then Some ''dusk'' else None)"
  by (simp add: twilight_label_def)

lemma day_windows_iff:
  "(s, e, l) \<in> set (day_windows t day dawn dusk fws) \<longleftrightarrow>
     (s, e) \<in> set fws \<and> date_of s = day \<and> twilight_label s e dawn dusk = Some l
     \<and> \<not> (e < t \<or> s > t + td_hours 24)"
proof (induction fws)
  case Nil
  then show ?case by simp
next
  case (Cons fw fws)
  obtain a b where fw: "fw = (a, b)" by (cases fw)
  show ?case
    unfolding fw using Cons.IH
    by (cases "twilight_label a b dawn dusk") (auto simp: Let_def)
qed

lemma build_windows_iff:
  "(s, e, l) \<in> set (build_windows t dl fws days) \<longleftrightarrow>
     (s, e) \<in> set fws \<and> date_of s \<in> set days
     \<and> (\<exists>dawn dusk. civil_twilight_for_day dl (date_of s) = Some (dawn, dusk)
            \<and> twilight_label s e dawn dusk = Some l)
     \<and> \<not> (e < t \<or> s > t + td_hours 24)"
proof (induction days)
  case Nil
  then show ?case by simp
next
  case (Cons day days)
  show ?case
  proof (cases "civil_twilight_for_day dl day")
    case None
    then show ?thesis using Cons.IH by auto
  next
    case (Some tw)
    obtain dawn dusk where tw: "tw = (dawn, dusk)" by (cases tw)
    show ?thesis using Cons.IH Some unfolding tw
      by (auto simp: day_windows_iff simp del: split_paired_Ex split_paired_All)
  qed
qed

subsection \<open>Selection\<close>

lemma hd_sort_key_least:
  assumes "xs \<noteq> []"
  shows "hd (sort_key f xs) \<in> set xs \<and> (\<forall>y\<in>set xs. f (hd (sort_key f xs)) \<le> f y)"
proof -
  let ?ys = "sort_key f xs"
  have ne: "?ys \<noteq> []" using assms by (metis length_sort length_0_conv)
  then obtain z zs where ys: "?ys = z # zs" by (cases ?ys) auto
  have srt: "sorted (map f ?ys)" by (rule sorted_sort_key)
  have mem: "z \<in> set xs" using ys by (metis list.set_intros(1) set_sort)
  have sets: "set xs = insert z (set zs)"
    using set_sort [of f xs] unfolding ys by simp
  have "\<forall>y\<in>set zs. f z \<le> f y"
    using srt unfolding ys by simp
  then show ?thesis using mem unfolding ys sets by simp
qed

lemma hd_sort_key_first:
  assumes "xs \<noteq> []"
  shows "hd (sort_key f xs) = hd (filter (\<lambda>y. f y = f (hd (sort_key f xs))) xs)"
proof -
  let ?ys = "sort_key f xs"
  let ?k = "f (hd ?ys)"
  have ne: "?ys \<noteq> []" using assms by (metis length_sort length_0_conv)
  then obtain z zs where ys: "?ys = z # zs" by (cases ?ys) auto
  have "filter (\<lambda>y. f y = ?k) xs = filter (\<lambda>y. f y = ?k) ?ys"
    by (simp only: sort_key_stable)
  also have "\<dots> = z # filter (\<lambda>y. f y = f z) zs"
    unfolding ys by simp
  finally show ?thesis unfolding ys by simp
qed

subsection \<open>Dispatch and the run\<close>

lemma notify_band_simps:
  "notify_band cfg post today None sent band key (st, upd, calls) = (st, upd, calls)"
  "notify_band cfg post today (Some r) sent band key (st, upd, calls) =
     (if sent then (st, upd, calls)
      else if send_push cfg post r band
        then (mark_sent st today key, True, calls @ [(r, band)])
        else (st, upd, calls @ [(r, band)]))"
  by (simp_all add: notify_band_def)

lemma dispatch_pushes:
  "pushes (dispatch cfg post wok file st today sg sa pg pa) =
     (case pg of None \<Rightarrow> [] | Some r \<Rightarrow> if sg then [] else [(r, ''GREEN'')])
     @ (case pa of None \<Rightarrow> [] | Some r \<Rightarrow> if sa then [] else [(r, ''AMBER'')])"
  by (cases pg; cases pa) (simp_all add: dispatch_def notify_band_simps Let_def)

lemma dispatch_outcome:
  "outcome (dispatch cfg post wok file st today sg sa pg pa) = Inr 0"
  by (cases pg; cases pa) (simp_all add: dispatch_def notify_band_simps Let_def)

lemma entry_mark_sent:
  "entry (Document (mark_sent st today k)) d key =
     (if d = today \<and> key = k then Some True else entry (Document st) d key)"
  by (auto simp: entry_def load_state_def mark_sent_def split: option.splits)

lemma entry_Document_load: "entry (Document (load_state f)) d key = entry f d key"
  by (simp add: entry_def load_state_def split: state_file.splits)

lemma dispatch_entry:
  "entry (file_after (dispatch cfg post wok file (load_state file) today sg sa pg pa)) d key =
     (if wok \<and> d = today
         \<and> ((key = ''green'' \<and> (\<exists>r. pg = Some r \<and> \<not> sg \<and> send_push cfg post r ''GREEN''))
            \<or> (key = ''amber'' \<and> (\<exists>r. pa = Some r \<and> \<not> sa \<and> send_push cfg post r ''AMBER'')))
      then Some True else entry file d key)"
  by (cases pg; cases pa)
     (auto simp: dispatch_def notify_band_simps Let_def entry_mark_sent entry_Document_load)

lemma dispatch_file_unchanged:
  "\<not> ((\<exists>r. pg = Some r \<and> \<not> sg \<and> send_push cfg post r ''GREEN'')
       \<or> (\<exists>r. pa = Some r \<and> \<not> sa \<and> send_push cfg post r ''AMBER''))
   \<Longrightarrow> file_after (dispatch cfg post wok file st today sg sa pg pa) = file"
  by (cases pg; cases pa) (auto simp: dispatch_def notify_band_simps Let_def)

lemma main_unfold:
  "main cfg ev =
     (case score_windows (env_met ev) (pressure_trend (pressure_msl (env_met ev)))
             (candidate_windows ev) of
        Inl e \<Rightarrow> \<lparr>outcome = Inl e, file_after = env_state_file ev, pushes = []\<rparr>
      | Inr sl \<Rightarrow>
          if sl = [] then \<lparr>outcome = Inr 0, file_after = env_state_file ev, pushes = []\<rparr>
          else dispatch cfg (env_post ev) (env_write_ok ev) (env_state_file ev)
                 (load_state (env_state_file ev)) (date_of (env_now ev))
                 (sent_today (load_state (env_state_file ev)) (date_of (env_now ev)) ''green'')
                 (sent_today (load_state (env_state_file ev)) (date_of (env_now ev)) ''amber'')
                 (pick_best (filter (\<lambda>r. best_score r \<ge> 10) sl))
                 (pick_best (filter (\<lambda>r. 7 \<le> best_score r \<and> best_score r \<le> 9) sl)))"
  by (simp add: main_def Let_def split: sum.splits)

lemma main_shape:
  "(file_after (main cfg ev) = env_state_file ev \<and> pushes (main cfg ev) = [])
   \<or> (\<exists>pg pa. main cfg ev = dispatch cfg (env_post ev) (env_write_ok ev) (env_state_file ev)
                 (load_state (env_state_file ev)) (date_of (env_now ev))
                 (sent_today (load_state (env_state_file ev)) (date_of (env_now ev)) ''green'')
                 (sent_today (load_state (env_state_file ev)) (date_of (env_now ev)) ''amber'')
                 pg pa)"
proof (cases "score_windows (env_met ev) (pressure_trend (pressure_msl (env_met ev)))
             (candidate_windows ev)")
  case (Inl e)
  then show ?thesis by (simp add: main_unfold)
next
  case (Inr sl)
  show ?thesis
  proof (cases "sl = []")
    case True
    then show ?thesis using Inr by (simp add: main_unfold)
  next
    case False
    then show ?thesis using Inr by (simp add: main_unfold) blast
  qed
qed

section \<open>Flood windows\<close>

text \<open>
  Claim C9. Every high tide \<open>t\<close> gives exactly one flood window, in the order of the
  high tides, and that window starts two hours before \<open>t\<close> and ends at \<open>t\<close>; a high
  tide at 14:00 UTC gives the window from 12:00 to 14:00.
\<close>

theorem flood_window_two_hours_before_high:
  "map snd (pick_flood_windows hs) = hs
   \<and> map fst (pick_flood_windows hs) = map (\<lambda>t. t - 7200000000) hs
   \<and> pick_flood_windows [at_hour d 14] = [(at_hour d 12, at_hour d 14)]"
  by (simp add: pick_flood_windows_map td_hours_def at_hour_def comp_def)

section \<open>Overlap of intervals\<close>

text \<open>
  Claim C10. \<open>overlaps\<close> holds exactly when the later start is before the earlier
  end, which is when the two half-open intervals share an instant; intervals that only
  touch at an endpoint do not overlap. The two examples of the specification, on any
  day: 12:00-14:00 overlaps 13:30-14:30 and does not overlap 14:00-15:00.
\<close>

theorem overlaps_half_open:
  "overlaps a_start a_end b_start b_end = (max a_start b_start < min a_end b_end)
   \<and> overlaps a_start a_end b_start b_end
       = ({a_start ..< a_end} \<inter> {b_start ..< b_end} \<noteq> {})
   \<and> overlaps a_start m m b_end = False
   \<and> overlaps (at_hour d 12) (at_hour d 14)
        (at_hour d 13 + td_minutes 30) (at_hour d 14 + td_minutes 30) = True
   \<and> overlaps (at_hour d 12) (at_hour d 14) (at_hour d 14) (at_hour d 15) = False"
proof -
  have inter: "{a_start ..< a_end} \<inter> {b_start ..< b_end}
      = {max a_start b_start ..< min a_end b_end}"
    by auto
  have set_form: "overlaps a_start a_end b_start b_end
      = ({a_start ..< a_end} \<inter> {b_start ..< b_end} \<noteq> {})"
    unfolding inter overlaps_def by auto
  have touch: "overlaps a_start m m b_end = False"
    by (simp add: overlaps_def)
  have ex1: "overlaps (at_hour d 12) (at_hour d 14)
        (at_hour d 13 + td_minutes 30) (at_hour d 14 + td_minutes 30) = True"
    by (simp add: overlaps_def at_hour_def td_hours_def td_minutes_def)
  have ex2: "overlaps (at_hour d 12) (at_hour d 14) (at_hour d 14) (at_hour d 15) = False"
    by (simp add: overlaps_def at_hour_def td_hours_def)
  show ?thesis
    using set_form touch ex1 ex2 by (simp add: overlaps_def)
qed

section \<open>Scoring with no forecast\<close>

text \<open>
  Claim C1. The claim is that scoring never raises and falls back to the neutral
  defaults when the sample series is empty. The program does otherwise: with an empty
  list of timestamps the nearest-sample search is \<^verbatim>\<open>min\<close> over an empty range, which
  raises ValueError before any default is read, for every window and whatever the other
  series hold. In the run at 03:00 of day 0 with a failed forecast request and the
  synthetic tides there are two candidate windows, and the run ends with that exception.
\<close>

theorem scoring_raises_on_empty_series:
  "score_window (h\<lparr>time := []\<rparr>) p_trend w = Inl ValueError
   \<and> candidate_windows (ex_env Absent ex_no_met ex_post_ok)
       = [(at_hour 0 4, at_hour 0 6, ''dawn''), (at_hour 0 16, at_hour 0 18, ''dusk'')]
   \<and> score_window ex_no_met 0 (at_hour 0 4, at_hour 0 6, ''dawn'') = Inl ValueError
   \<and> outcome (main ex_cfg (ex_env Absent ex_no_met ex_post_ok)) = Inl ValueError"
proof -
  have general: "score_window (h\<lparr>time := []\<rparr>) p_trend w = Inl ValueError"
    by (simp add: score_window_def py_min_def split: prod.splits)
  have windows: "candidate_windows (ex_env Absent ex_no_met ex_post_ok)
       = [(at_hour 0 4, at_hour 0 6, ''dawn''), (at_hour 0 16, at_hour 0 18, ''dusk'')]"
    by code_simp
  have one: "score_window ex_no_met 0 (at_hour 0 4, at_hour 0 6, ''dawn'') = Inl ValueError"
    by code_simp
  have run: "outcome (main ex_cfg (ex_env Absent ex_no_met ex_post_ok)) = Inl ValueError"
    by code_simp
  show ?thesis using general windows one run by simp
qed

section \<open>Range of the composite scores\<close>

text \<open>
  Claim C3. Whatever the forecast values and the pressure trend, a scored window has
  both composite scores between 3 and 9, so its best score is at most 9 and never labelled
  GREEN; in a scored list no window passes the GREEN filter, nothing is selected for GREEN,
  and no run calls \<^verbatim>\<open>send_push\<close> for the GREEN band.
\<close>

theorem composite_scores_between_3_and_9:
  "(score_window h p_trend w = Inr r \<longrightarrow>
      3 \<le> bass r \<and> bass r \<le> 9 \<and> 3 \<le> cod r \<and> cod r \<le> 9
      \<and> best_score r \<le> 9 \<and> label_from_score (best_score r) \<noteq> ''GREEN'')
   \<and> (score_windows h p_trend ws = Inr rs \<longrightarrow>
        (\<forall>x\<in>set rs. 3 \<le> bass x \<and> bass x \<le> 9 \<and> 3 \<le> cod x \<and> cod x \<le> 9 \<and> best_score x \<le> 9)
        \<and> filter (\<lambda>x. best_score x \<ge> 10) rs = []
        \<and> pick_best (filter (\<lambda>x. best_score x \<ge> 10) rs) = None)
   \<and> (x, ''GREEN'') \<notin> set (pushes (main cfg ev))"
proof -
  have one: "3 \<le> bass r \<and> bass r \<le> 9 \<and> 3 \<le> cod r \<and> cod r \<le> 9
      \<and> best_score r \<le> 9 \<and> label_from_score (best_score r) \<noteq> ''GREEN''"
    if "score_window h p_trend w = Inr r"
  proof -
    note rng = score_window_range [OF that]
    then have best: "best_score r \<le> 9" by (simp add: best_score_def)
    then have "label_from_score (best_score r) \<noteq> ''GREEN''"
      by (simp add: label_from_score_def)
    then show ?thesis using rng best by simp
  qed
  have all: "\<forall>x\<in>set rs. 3 \<le> bass x \<and> bass x \<le> 9 \<and> 3 \<le> cod x \<and> cod x \<le> 9 \<and> best_score x \<le> 9"
    if "score_windows h p_trend ws = Inr rs" for h p_trend ws rs
    using score_windows_range [OF that] by (auto simp: best_score_def)
  have no_green: "filter (\<lambda>x. best_score x \<ge> 10) rs = []"
    if "score_windows h p_trend ws = Inr rs" for h p_trend ws rs
    using all [OF that] by (auto simp: filter_empty_conv)
  have no_pick: "pick_best (filter (\<lambda>x. best_score x \<ge> 10) rs) = None"
    if "score_windows h p_trend ws = Inr rs" for h p_trend ws rs
    using no_green [OF that] by (simp add: pick_best_def)
  have run: "(x, ''GREEN'') \<notin> set (pushes (main cfg ev))"
  proof (cases "score_windows (env_met ev) (pressure_trend (pressure_msl (env_met ev)))
             (candidate_windows ev)")
    case (Inl e)
    then show ?thesis by (simp add: main_unfold)
  next
    case (Inr sl)
    show ?thesis
      using Inr no_pick [OF Inr]
      by (simp add: main_unfold dispatch_pushes split: option.splits)
  qed
  show ?thesis using one all no_green no_pick run by blast
qed

text \<open>The theorem at the dawn window of day 0 with the example forecast.\<close>

theorem composite_scores_between_3_and_9_witness:
  "score_window ex_met (- 1.5) (at_hour 0 4, at_hour 0 6, ''dawn'')
     = Inr (ex_scored (at_hour 0 4) 9 7\<lparr>sst := 13.5, wind_kt := 5 * 1.94384\<rparr>)
   \<and> 3 \<le> bass (ex_scored (at_hour 0 4) 9 7\<lparr>sst := 13.5, wind_kt := 5 * 1.94384\<rparr>)
   \<and> best_score (ex_scored (at_hour 0 4) 9 7\<lparr>sst := 13.5, wind_kt := 5 * 1.94384\<rparr>) \<le> 9"
proof -
  let ?r = "ex_scored (at_hour 0 4) 9 7\<lparr>sst := 13.5, wind_kt := 5 * 1.94384\<rparr>"
  have h: "score_window ex_met (- 1.5) (at_hour 0 4, at_hour 0 6, ''dawn'') = Inr ?r"
    by code_simp
  from composite_scores_between_3_and_9 [of ex_met "- 1.5" "(at_hour 0 4, at_hour 0 6, ''dawn'')" ?r]
  have "3 \<le> bass ?r \<and> best_score ?r \<le> 9" using h by blast
  then show ?thesis using h by simp
qed

section \<open>The bass composite\<close>



section \<open>Selection within a band\<close>

text \<open>
  Claim C7. For an empty list the selector returns nothing, without an error. For a
  list that is not empty it returns a window of the list whose best score (the larger of
  bass and cod) is the highest of the list, and whose start is the earliest among the
  windows with that best score; it is the first such window of the list.
\<close>

theorem pick_best_highest_then_earliest:
  "pick_best [] = None
   \<and> (lst \<noteq> [] \<longrightarrow>
        (\<exists>w. pick_best lst = Some w \<and> w \<in> set lst
           \<and> (\<forall>v\<in>set lst. best_score v \<le> best_score w)
           \<and> (\<forall>v\<in>set lst. best_score v = best_score w \<longrightarrow> start w \<le> start v)
           \<and> w = hd (filter (\<lambda>v. best_score v = best_score w \<and> start v = start w) lst)))"
proof -
  have empty: "pick_best [] = None" by (simp add: pick_best_def)
  have nonempty: "\<exists>w. pick_best lst = Some w \<and> w \<in> set lst
           \<and> (\<forall>v\<in>set lst. best_score v \<le> best_score w)
           \<and> (\<forall>v\<in>set lst. best_score v = best_score w \<longrightarrow> start w \<le> start v)
           \<and> w = hd (filter (\<lambda>v. best_score v = best_score w \<and> start v = start w) lst)"
    if ne: "lst \<noteq> []"
  proof -
    let ?key = "\<lambda>r. (- best_score r, start r)"
    let ?w = "hd (sort_key ?key lst)"
    have pb: "pick_best lst = Some ?w" using ne by (simp add: pick_best_def)
    from hd_sort_key_least [OF ne, of ?key]
    have mem: "?w \<in> set lst" and least: "\<forall>y\<in>set lst. ?key ?w \<le> ?key y" by blast+
    have hi: "\<forall>v\<in>set lst. best_score v \<le> best_score ?w"
      using least by (auto simp: less_eq_prod_def)
    have early: "\<forall>v\<in>set lst. best_score v = best_score ?w \<longrightarrow> start ?w \<le> start v"
      using least by (auto simp: less_eq_prod_def)
    have "?w = hd (filter (\<lambda>y. ?key y = ?key ?w) lst)"
      by (rule hd_sort_key_first [OF ne])
    then have first: "?w = hd (filter (\<lambda>v. best_score v = best_score ?w \<and> start v = start ?w) lst)"
      by simp
    show ?thesis using pb mem hi early first by blast
  qed
  show ?thesis using empty nonempty by blast
qed

text \<open>
  The theorem on three windows: the one starting last scores 8, the other two score 9,
  and the earlier of these is selected.
\<close>

theorem pick_best_highest_then_earliest_witness:
  "[ex_scored 300 7 8, ex_scored 200 9 4, ex_scored 100 5 9] \<noteq> []
   \<and> pick_best [ex_scored 300 7 8, ex_scored 200 9 4, ex_scored 100 5 9]
       = Some (ex_scored 100 5 9)
   \<and> best_score (ex_scored 200 9 4) \<le> best_score (ex_scored 100 5 9)
   \<and> start (ex_scored 100 5 9) \<le> start (ex_scored 200 9 4)"
proof -
  let ?lst = "[ex_scored 300 7 8, ex_scored 200 9 4, ex_scored 100 5 9]"
  have ne: "?lst \<noteq> []" by simp
  have pb: "pick_best ?lst = Some (ex_scored 100 5 9)" by code_simp
  from pick_best_highest_then_earliest [of ?lst] ne
  obtain w where w: "pick_best ?lst = Some w"
    and hi: "\<forall>v\<in>set ?lst. best_score v \<le> best_score w"
    and early: "\<forall>v\<in>set ?lst. best_score v = best_score w \<longrightarrow> start w \<le> start v"
    by blast
  have weq: "w = ex_scored 100 5 9" using w pb by simp
  have same: "best_score (ex_scored 200 9 4) = best_score (ex_scored 100 5 9)"
    by (simp add: best_score_def ex_scored_def)
  have a: "best_score (ex_scored 200 9 4) \<le> best_score (ex_scored 100 5 9)"
    using hi unfolding weq by simp
  have b: "start (ex_scored 100 5 9) \<le> start (ex_scored 200 9 4)"
    using early same unfolding weq by simp
  show ?thesis using ne pb a b by blast
qed

section \<open>The interval of a candidate window\<close>

text \<open>
  Claim C2 says that the interval of a candidate window is the overlap of the flood
  window with the twilight window. The program appends the flood window itself. In the
  run at 03:00 of day 0 with the synthetic tides, the flood window 04:00-06:00 meets the
  dawn window 04:30-05:30; the candidate produced is 04:00-06:00, which is neither its
  overlap with the dawn window (04:30-05:30) nor with the dusk window.
\<close>

theorem candidate_interval_not_the_overlap:
  "candidate_windows (ex_env Absent ex_met ex_post_ok)
     = [(at_hour 0 4, at_hour 0 6, ''dawn''), (at_hour 0 16, at_hour 0 18, ''dusk'')]
   \<and> pick_flood_windows (approx_hts (at_hour 0 3))
       = [(at_hour 0 4, at_hour 0 6), (at_hour 0 16, at_hour 0 18),
          (at_hour 1 4, at_hour 1 6), (at_hour 1 16, at_hour 1 18)]
   \<and> civil_twilight_for_day ex_daylight 0
       = Some ((at_hour 0 4 + td_minutes 30, at_hour 0 5 + td_minutes 30),
               (at_hour 0 16 + td_minutes 30, at_hour 0 17 + td_minutes 30))
   \<and> spec_intersection (at_hour 0 4, at_hour 0 6)
         (at_hour 0 4 + td_minutes 30, at_hour 0 5 + td_minutes 30)
       = (at_hour 0 4 + td_minutes 30, at_hour 0 5 + td_minutes 30)
   \<and> (at_hour 0 4, at_hour 0 6)
       \<noteq> spec_intersection (at_hour 0 4, at_hour 0 6)
           (at_hour 0 4 + td_minutes 30, at_hour 0 5 + td_minutes 30)
   \<and> (at_hour 0 4, at_hour 0 6)
       \<noteq> spec_intersection (at_hour 0 4, at_hour 0 6)
           (at_hour 0 16 + td_minutes 30, at_hour 0 17 + td_minutes 30)"
proof -
  have a: "candidate_windows (ex_env Absent ex_met ex_post_ok)
     = [(at_hour 0 4, at_hour 0 6, ''dawn''), (at_hour 0 16, at_hour 0 18, ''dusk'')]"
    by code_simp
  have b: "pick_flood_windows (approx_hts (at_hour 0 3))
       = [(at_hour 0 4, at_hour 0 6), (at_hour 0 16, at_hour 0 18),
          (at_hour 1 4, at_hour 1 6), (at_hour 1 16, at_hour 1 18)]"
    by code_simp
  have c: "civil_twilight_for_day ex_daylight 0
       = Some ((at_hour 0 4 + td_minutes 30, at_hour 0 5 + td_minutes 30),
               (at_hour 0 16 + td_minutes 30, at_hour 0 17 + td_minutes 30))"
    by code_simp
  have d: "spec_intersection (at_hour 0 4, at_hour 0 6)
         (at_hour 0 4 + td_minutes 30, at_hour 0 5 + td_minutes 30)
       = (at_hour 0 4 + td_minutes 30, at_hour 0 5 + td_minutes 30)"
    by code_simp
  have e: "(at_hour 0 4, at_hour 0 6)
       \<noteq> spec_intersection (at_hour 0 4, at_hour 0 6)
           (at_hour 0 4 + td_minutes 30, at_hour 0 5 + td_minutes 30)"
    by code_simp
  have f: "(at_hour 0 4, at_hour 0 6)
       \<noteq> spec_intersection (at_hour 0 4, at_hour 0 6)
           (at_hour 0 16 + td_minutes 30, at_hour 0 17 + td_minutes 30)"
    by code_simp
  show ?thesis using a b c d e f by blast
qed

text \<open>
  Claim C2, amended. Every candidate window is a whole flood window: it ends at a high
  tide and starts two hours before it, its start day is one of the days in scope and has
  twilight data, it has not ended before now and does not start more than 24 hours from
  now, and it carries the label of a twilight window of its start day that it overlaps.
\<close>

theorem candidate_is_whole_flood_window:
  assumes "(s, e, l) \<in> set (build_windows t dl (pick_flood_windows highs) days)"
  shows "e \<in> set highs \<and> s = e - td_hours 2 \<and> s < e
         \<and> (s, e) \<in> set (pick_flood_windows highs)
         \<and> date_of s \<in> set days
         \<and> e \<ge> t \<and> s \<le> t + td_hours 24
         \<and> (\<exists>dawn dusk. civil_twilight_for_day dl (date_of s) = Some (dawn, dusk)
               \<and> ((l = ''dawn'' \<and> overlaps s e (fst dawn) (snd dawn))
                  \<or> (l = ''dusk'' \<and> overlaps s e (fst dusk) (snd dusk))))"
proof -
  from assms have fw: "(s, e) \<in> set (pick_flood_windows highs)"
    and day: "date_of s \<in> set days"
    and live: "\<not> (e < t \<or> s > t + td_hours 24)"
    and tw: "\<exists>dawn dusk. civil_twilight_for_day dl (date_of s) = Some (dawn, dusk)
            \<and> twilight_label s e dawn dusk = Some l"
    unfolding build_windows_iff by blast+
  from fw have hi: "e \<in> set highs" and st: "s = e - td_hours 2"
    by (auto simp: pick_flood_windows_map)
  have lt: "s < e" unfolding st by (simp add: td_hours_def)
  from tw obtain dawn dusk where
    c: "civil_twilight_for_day dl (date_of s) = Some (dawn, dusk)"
    and lab: "twilight_label s e dawn dusk = Some l" by blast
  from lab have "(l = ''dawn'' \<and> overlaps s e (fst dawn) (snd dawn))
                  \<or> (l = ''dusk'' \<and> overlaps s e (fst dusk) (snd dusk))"
    by (auto simp: twilight_label_cases split: if_splits)
  with c have ex: "\<exists>dawn dusk. civil_twilight_for_day dl (date_of s) = Some (dawn, dusk)
               \<and> ((l = ''dawn'' \<and> overlaps s e (fst dawn) (snd dawn))
                  \<or> (l = ''dusk'' \<and> overlaps s e (fst dusk) (snd dusk)))"
    by blast
  show ?thesis using hi st lt fw day live ex by simp
qed

text \<open>The amended statement at the dawn candidate of day 0.\<close>

theorem candidate_is_whole_flood_window_witness:
  "(at_hour 0 4, at_hour 0 6, ''dawn'')
      \<in> set (build_windows (at_hour 0 3) ex_daylight (pick_flood_windows [at_hour 0 6, at_hour 0 18]) [0, 1])
   \<and> at_hour 0 6 \<in> set [at_hour 0 6, at_hour 0 18]
   \<and> at_hour 0 4 = at_hour 0 6 - td_hours 2
   \<and> (at_hour 0 4, at_hour 0 6) \<in> set (pick_flood_windows [at_hour 0 6, at_hour 0 18])"
proof -
  have h: "(at_hour 0 4, at_hour 0 6, ''dawn'')
      \<in> set (build_windows (at_hour 0 3) ex_daylight (pick_flood_windows [at_hour 0 6, at_hour 0 18]) [0, 1])"
    by code_simp
  show ?thesis using h candidate_is_whole_flood_window [OF h] by simp
qed

section \<open>The label of a candidate window\<close>

text \<open>
  Claim C8. Take a flood window of a day in scope that has twilight data, not dropped
  by the time filter. If it overlaps the dawn and the dusk window of its day, it is
  produced with the label dawn and with no other label; likewise if it overlaps dawn
  only. If it overlaps only dusk it is produced with the label dusk and no other. If it
  overlaps neither, no candidate is produced for it.
\<close>

theorem dawn_label_takes_precedence:
  assumes tw: "civil_twilight_for_day dl (date_of s) = Some (dawn, dusk)"
    and fw: "(s, e) \<in> set fws"
    and day: "date_of s \<in> set days"
    and live: "\<not> (e < t \<or> s > t + td_hours 24)"
  shows "(overlaps s e (fst dawn) (snd dawn) \<and> overlaps s e (fst dusk) (snd dusk) \<longrightarrow>
            (s, e, ''dawn'') \<in> set (build_windows t dl fws days)
            \<and> (\<forall>l. (s, e, l) \<in> set (build_windows t dl fws days) \<longrightarrow> l = ''dawn''))
       \<and> (overlaps s e (fst dawn) (snd dawn) \<and> \<not> overlaps s e (fst dusk) (snd dusk) \<longrightarrow>
            (s, e, ''dawn'') \<in> set (build_windows t dl fws days)
            \<and> (\<forall>l. (s, e, l) \<in> set (build_windows t dl fws days) \<longrightarrow> l = ''dawn''))
       \<and> (\<not> overlaps s e (fst dawn) (snd dawn) \<and> overlaps s e (fst dusk) (snd dusk) \<longrightarrow>
            (s, e, ''dusk'') \<in> set (build_windows t dl fws days)
            \<and> (\<forall>l. (s, e, l) \<in> set (build_windows t dl fws days) \<longrightarrow> l = ''dusk''))
       \<and> (\<not> overlaps s e (fst dawn) (snd dawn) \<and> \<not> overlaps s e (fst dusk) (snd dusk) \<longrightarrow>
            (\<forall>l. (s, e, l) \<notin> set (build_windows t dl fws days)))"
proof -
  have mem: "(s, e, l) \<in> set (build_windows t dl fws days)
               \<longleftrightarrow> twilight_label s e dawn dusk = Some l" for l
    unfolding build_windows_iff using tw fw day live by simp
  show ?thesis
    unfolding mem twilight_label_cases by simp
qed

text \<open>
  The theorem on the polar day: the flood window 10:00-12:00 overlaps both the dawn
  window 10:30-11:30 and the dusk window 11:30-12:30, and is labelled dawn.
\<close>

theorem dawn_label_takes_precedence_witness:
  "civil_twilight_for_day ex_polar_daylight (date_of (at_hour 0 10))
     = Some ((at_hour 0 10 + td_minutes 30, at_hour 0 11 + td_minutes 30),
             (at_hour 0 11 + td_minutes 30, at_hour 0 12 + td_minutes 30))
   \<and> (at_hour 0 10, at_hour 0 12) \<in> set (pick_flood_windows [at_hour 0 12])
   \<and> date_of (at_hour 0 10) \<in> set [0, 1]
   \<and> \<not> (at_hour 0 12 < at_hour 0 3 \<or> at_hour 0 10 > at_hour 0 3 + td_hours 24)
   \<and> overlaps (at_hour 0 10) (at_hour 0 12) (at_hour 0 10 + td_minutes 30) (at_hour 0 11 + td_minutes 30)
   \<and> overlaps (at_hour 0 10) (at_hour 0 12) (at_hour 0 11 + td_minutes 30) (at_hour 0 12 + td_minutes 30)
   \<and> (at_hour 0 10, at_hour 0 12, ''dawn'')
        \<in> set (build_windows (at_hour 0 3) ex_polar_daylight (pick_flood_windows [at_hour 0 12]) [0, 1])
   \<and> (at_hour 0 10, at_hour 0 12, ''dusk'')
        \<notin> set (build_windows (at_hour 0 3) ex_polar_daylight (pick_flood_windows [at_hour 0 12]) [0, 1])"
proof -
  let ?dawn = "(at_hour 0 10 + td_minutes 30, at_hour 0 11 + td_minutes 30)"
  let ?dusk = "(at_hour 0 11 + td_minutes 30, at_hour 0 12 + td_minutes 30)"
  let ?W = "build_windows (at_hour 0 3) ex_polar_daylight (pick_flood_windows [at_hour 0 12]) [0, 1]"
  have tw: "civil_twilight_for_day ex_polar_daylight (date_of (at_hour 0 10)) = Some (?dawn, ?dusk)"
    by code_simp
  have fw: "(at_hour 0 10, at_hour 0 12) \<in> set (pick_flood_windows [at_hour 0 12])"
    by code_simp
  have day: "date_of (at_hour 0 10) \<in> set [0, 1]"
    by code_simp
  have live: "\<not> (at_hour 0 12 < at_hour 0 3 \<or> at_hour 0 10 > at_hour 0 3 + td_hours 24)"
    by code_simp
  have o1: "overlaps (at_hour 0 10) (at_hour 0 12) (fst ?dawn) (snd ?dawn)"
    by code_simp
  have o2: "overlaps (at_hour 0 10) (at_hour 0 12) (fst ?dusk) (snd ?dusk)"
    by code_simp
  from dawn_label_takes_precedence [OF tw fw day live] o1 o2
  have r: "(at_hour 0 10, at_hour 0 12, ''dawn'') \<in> set ?W
     \<and> (\<forall>l. (at_hour 0 10, at_hour 0 12, l) \<in> set ?W \<longrightarrow> l = ''dawn'')"
    by blast
  then have r2: "(at_hour 0 10, at_hour 0 12, ''dusk'') \<notin> set ?W"
    by auto
  show ?thesis using tw fw day live o1 o2 r r2 by simp
qed

section \<open>The state file after a run\<close>


lemma send_push_no_credentials:
  "PUSHOVER_TOKEN cfg = [] \<or> PUSHOVER_USER cfg = [] \<Longrightarrow> \<not> send_push cfg post r band"
  by (auto simp: send_push_def)

lemma send_push_post_fails:
  "\<not> post r band \<Longrightarrow> \<not> send_push cfg post r band"
  by (simp add: send_push_def)

lemma main_file_unchanged:
  assumes "\<And>r band. \<not> send_push cfg (env_post ev) r band"
  shows "file_after (main cfg ev) = env_state_file ev"
proof -
  from main_shape [of cfg ev] show ?thesis
  proof
    assume "file_after (main cfg ev) = env_state_file ev \<and> pushes (main cfg ev) = []"
    then show ?thesis by simp
  next
    assume "\<exists>pg pa. main cfg ev = dispatch cfg (env_post ev) (env_write_ok ev) (env_state_file ev)
                 (load_state (env_state_file ev)) (date_of (env_now ev))
                 (sent_today (load_state (env_state_file ev)) (date_of (env_now ev)) ''green'')
                 (sent_today (load_state (env_state_file ev)) (date_of (env_now ev)) ''amber'')
                 pg pa"
    then obtain pg pa where m: "main cfg ev = dispatch cfg (env_post ev) (env_write_ok ev)
                 (env_state_file ev)
                 (load_state (env_state_file ev)) (date_of (env_now ev))
                 (sent_today (load_state (env_state_file ev)) (date_of (env_now ev)) ''green'')
                 (sent_today (load_state (env_state_file ev)) (date_of (env_now ev)) ''amber'')
                 pg pa" by blast
    show ?thesis unfolding m
      by (rule dispatch_file_unchanged) (simp add: assms)
  qed
qed

text \<open>
  Claim C4. An entry of the state file (a day and a key) differs after the final block
  of the run only if it is today's entry for green or amber, the file could be written,
  the entry now reads true, and \<^verbatim>\<open>send_push\<close> was called for the band of that key and
  returned True. The same holds of the whole run, where the call is one of the recorded
  calls. When a credential is missing, or when every notification request fails, the
  file after the run is the file before it.
\<close>

theorem state_marked_only_after_acknowledgement:
  "(entry (file_after (dispatch cfg post wok file (load_state file) today sg sa pg pa)) d key
        \<noteq> entry file d key
      \<longrightarrow> d = today \<and> wok
          \<and> entry (file_after (dispatch cfg post wok file (load_state file) today sg sa pg pa))
                d key = Some True
          \<and> ((key = ''green'' \<and> (\<exists>r. pg = Some r \<and> \<not> sg \<and> send_push cfg post r ''GREEN''))
             \<or> (key = ''amber'' \<and> (\<exists>r. pa = Some r \<and> \<not> sa \<and> send_push cfg post r ''AMBER''))))
   \<and> (entry (file_after (main cfg ev)) d key \<noteq> entry (env_state_file ev) d key
      \<longrightarrow> d = date_of (env_now ev) \<and> env_write_ok ev
          \<and> entry (file_after (main cfg ev)) d key = Some True
          \<and> (\<exists>r band. (r, band) \<in> set (pushes (main cfg ev))
                \<and> send_push cfg (env_post ev) r band
                \<and> ((key = ''green'' \<and> band = ''GREEN'') \<or> (key = ''amber'' \<and> band = ''AMBER''))))
   \<and> (PUSHOVER_TOKEN cfg = [] \<or> PUSHOVER_USER cfg = []
      \<longrightarrow> file_after (main cfg ev) = env_state_file ev)
   \<and> ((\<forall>r band. \<not> env_post ev r band) \<longrightarrow> file_after (main cfg ev) = env_state_file ev)"
proof -
  let ?D = "\<lambda>cfg post wok file today sg sa pg pa.
              dispatch cfg post wok file (load_state file) today sg sa pg pa"
  have A: "d = today \<and> wok
          \<and> entry (file_after (?D cfg post wok f today sg sa pg pa)) d key = Some True
          \<and> ((key = ''green'' \<and> (\<exists>r. pg = Some r \<and> \<not> sg \<and> send_push cfg post r ''GREEN''))
             \<or> (key = ''amber'' \<and> (\<exists>r. pa = Some r \<and> \<not> sa \<and> send_push cfg post r ''AMBER'')))"
    if "entry (file_after (?D cfg post wok f today sg sa pg pa)) d key \<noteq> entry f d key"
    for cfg post wok f today sg sa pg pa
    using that unfolding dispatch_entry by (simp split: if_splits)
  have B: "d = date_of (env_now ev) \<and> env_write_ok ev
          \<and> entry (file_after (main cfg ev)) d key = Some True
          \<and> (\<exists>r band. (r, band) \<in> set (pushes (main cfg ev))
                \<and> send_push cfg (env_post ev) r band
                \<and> ((key = ''green'' \<and> band = ''GREEN'') \<or> (key = ''amber'' \<and> band = ''AMBER'')))"
    if ch: "entry (file_after (main cfg ev)) d key \<noteq> entry (env_state_file ev) d key"
  proof -
    from main_shape [of cfg ev] ch
    obtain pg pa where m: "main cfg ev = dispatch cfg (env_post ev) (env_write_ok ev)
                 (env_state_file ev)
                 (load_state (env_state_file ev)) (date_of (env_now ev))
                 (sent_today (load_state (env_state_file ev)) (date_of (env_now ev)) ''green'')
                 (sent_today (load_state (env_state_file ev)) (date_of (env_now ev)) ''amber'')
                 pg pa" by auto
    let ?sg = "sent_today (load_state (env_state_file ev)) (date_of (env_now ev)) ''green''"
    let ?sa = "sent_today (load_state (env_state_file ev)) (date_of (env_now ev)) ''amber''"
    from A [of cfg "env_post ev" "env_write_ok ev" "env_state_file ev" "date_of (env_now ev)"
              ?sg ?sa pg pa] ch
    have a: "d = date_of (env_now ev) \<and> env_write_ok ev
          \<and> entry (file_after (main cfg ev)) d key = Some True"
      and b: "(key = ''green'' \<and> (\<exists>r. pg = Some r \<and> \<not> ?sg \<and> send_push cfg (env_post ev) r ''GREEN''))
             \<or> (key = ''amber'' \<and> (\<exists>r. pa = Some r \<and> \<not> ?sa \<and> send_push cfg (env_post ev) r ''AMBER''))"
      unfolding m by blast+
    from b have "\<exists>r band. (r, band) \<in> set (pushes (main cfg ev))
                \<and> send_push cfg (env_post ev) r band
                \<and> ((key = ''green'' \<and> band = ''GREEN'') \<or> (key = ''amber'' \<and> band = ''AMBER''))"
    proof
      assume "key = ''green'' \<and> (\<exists>r. pg = Some r \<and> \<not> ?sg \<and> send_push cfg (env_post ev) r ''GREEN'')"
      then obtain r where k: "key = ''green''" and r: "pg = Some r" "\<not> ?sg"
        "send_push cfg (env_post ev) r ''GREEN''" by blast
      have "(r, ''GREEN'') \<in> set (pushes (main cfg ev))"
        unfolding m dispatch_pushes using r by simp
      then show ?thesis using k r by blast
    next
      assume "key = ''amber'' \<and> (\<exists>r. pa = Some r \<and> \<not> ?sa \<and> send_push cfg (env_post ev) r ''AMBER'')"
      then obtain r where k: "key = ''amber''" and r: "pa = Some r" "\<not> ?sa"
        "send_push cfg (env_post ev) r ''AMBER''" by blast
      have "(r, ''AMBER'') \<in> set (pushes (main cfg ev))"
        unfolding m dispatch_pushes using r by simp
      then show ?thesis using k r by blast
    qed
    then show ?thesis using a by blast
  qed
  have C: "file_after (main cfg ev) = env_state_file ev"
    if "PUSHOVER_TOKEN cfg = [] \<or> PUSHOVER_USER cfg = []"
    by (rule main_file_unchanged) (rule send_push_no_credentials [OF that])
  have D: "file_after (main cfg ev) = env_state_file ev"
    if "\<forall>r band. \<not> env_post ev r band"
    by (rule main_file_unchanged) (simp add: send_push_post_fails that)
  show ?thesis using A B C D by blast
qed

text \<open>
  The theorem on three runs at 03:00 of day 0 with no state file: with a notification
  service that answers, the amber entry becomes true and the AMBER call was
  acknowledged; without the token, and with a service that fails (the call is made), the
  file stays as it was.
\<close>

theorem state_marked_only_after_acknowledgement_witness:
  "entry (file_after (main ex_cfg (ex_env Absent ex_met ex_post_ok))) 0 ''amber''
     \<noteq> entry (env_state_file (ex_env Absent ex_met ex_post_ok)) 0 ''amber''
   \<and> entry (file_after (main ex_cfg (ex_env Absent ex_met ex_post_ok))) 0 ''amber'' = Some True
   \<and> (\<exists>r. (r, ''AMBER'') \<in> set (pushes (main ex_cfg (ex_env Absent ex_met ex_post_ok)))
          \<and> send_push ex_cfg ex_post_ok r ''AMBER'')
   \<and> PUSHOVER_TOKEN ex_cfg_no_credentials = []
   \<and> file_after (main ex_cfg_no_credentials (ex_env Absent ex_met ex_post_ok)) = Absent
   \<and> pushes (main ex_cfg (ex_env Absent ex_met ex_post_fail)) \<noteq> []
   \<and> file_after (main ex_cfg (ex_env Absent ex_met ex_post_fail)) = Absent"
proof -
  let ?ok = "ex_env Absent ex_met ex_post_ok"
  let ?fail = "ex_env Absent ex_met ex_post_fail"
  note T = state_marked_only_after_acknowledgement
  have ch: "entry (file_after (main ex_cfg ?ok)) 0 ''amber'' \<noteq> entry (env_state_file ?ok) 0 ''amber''"
    by code_simp
  have post: "env_post ?ok = ex_post_ok" by (simp add: ex_env_def)
  from T [where cfg = ex_cfg and ev = ?ok and d = 0 and key = "''amber''"] ch
  have new: "entry (file_after (main ex_cfg ?ok)) 0 ''amber'' = Some True"
    and ack: "\<exists>r band. (r, band) \<in> set (pushes (main ex_cfg ?ok))
                \<and> send_push ex_cfg (env_post ?ok) r band
                \<and> ((''amber'' = ''green'' \<and> band = ''GREEN'') \<or> (''amber'' = ''amber'' \<and> band = ''AMBER''))"
    by blast+
  from ack have ack': "\<exists>r. (r, ''AMBER'') \<in> set (pushes (main ex_cfg ?ok))
          \<and> send_push ex_cfg ex_post_ok r ''AMBER''"
    unfolding post by auto
  have tok: "PUSHOVER_TOKEN ex_cfg_no_credentials = []" by (simp add: ex_cfg_no_credentials_def)
  from T [where cfg = ex_cfg_no_credentials and ev = ?ok] tok
  have nc: "file_after (main ex_cfg_no_credentials ?ok) = Absent"
    by (simp add: ex_env_def)
  have tried: "pushes (main ex_cfg ?fail) \<noteq> []" by code_simp
  have "\<forall>r band. \<not> env_post ?fail r band" by (simp add: ex_env_def ex_post_fail_def)
  with T [where cfg = ex_cfg and ev = ?fail]
  have nf: "file_after (main ex_cfg ?fail) = Absent"
    by (simp add: ex_env_def)
  show ?thesis using ch new ack' tok nc tried nf by blast
qed

section \<open>The gate before dispatch\<close>








end
